theory Spec2Isabelle
  imports Main "HOL-Library.Sublist"
begin

section \<open>The campaign controller of the WhatsApp sender (the \<open>Home\<close> component)\<close>

text \<open>
  The controller is the React component \<open>Home\<close>: seven \<open>useState\<close> cells, the
  function \<open>addLog\<close>, the handlers \<open>handleFileSelected\<close> and
  \<open>handleSendMessages\<close>, the poller \<open>startPollingStatus\<close> and two \<open>useEffect\<close>
  hooks. The embedding keeps the state cells as the fields of one record and adds to it
  the part of the browser the component drives: the timer table of
  \<open>setInterval\<close>/\<open>setTimeout\<close>, and the \<open>fetch\<close> calls that are awaiting their
  response. An \<open>async\<close> function is cut at its \<open>await\<close>: the part before it issues
  the request, the part after it is a function of the response. Clock readings
  (\<open>Date.now()\<close>, \<open>toLocaleTimeString()\<close>) are inputs.
\<close>

subsection \<open>Data\<close>

datatype log_type = Info | Success | Error | Warning

record Log =
  log_id :: string
  log_timestamp :: string
  log_message :: string
  log_type :: log_type

datatype toast_type = ToastSuccess | ToastError

text \<open>The toast cell holds \<open>{message, type}\<close> with \<open>type: null\<close> when nothing is shown.\<close>

record Toast =
  toast_message :: string
  toast_type :: "toast_type option"

record File =
  file_name :: string
  file_size :: nat

record CampaignStatus =
  cs_fileName :: string
  cs_status :: string
  cs_processed :: "nat option"
  cs_total :: "nat option"
  cs_successful :: "nat option"
  cs_failed :: "nat option"
  cs_successRate :: "string option"

text \<open>One reading of the clock: \<open>Date.now()\<close> in milliseconds and the text
  \<open>new Date().toLocaleTimeString()\<close> gives for it.\<close>

record clock =
  dateNow :: nat
  toLocaleTimeString :: string

text \<open>The JSON bodies of the two endpoints, with the fields and types the component
  reads: an absent field reads \<open>undefined\<close> (\<open>None\<close>), counts are non-negative
  integers.\<close>

record upload_data =
  d_message :: "string option"
  d_detail :: "string option"

record status_data =
  d_status :: string
  d_processed :: "nat option"
  d_total :: "nat option"
  d_successful :: "nat option"
  d_failed :: "nat option"
  d_success_rate :: "string option"

text \<open>
  How an awaited \<open>fetch\<close> comes back: the promise rejects (transport failure, with
  the message of the error), or it resolves to a response with its \<open>ok\<close> flag, whose
  \<open>json()\<close> in turn rejects (\<open>Inl\<close>, the message of the error) or yields the body.
\<close>

datatype 'd fetched = Rejected string | Resolved bool "string + 'd"

text \<open>
  What \<open>handleSendMessages\<close> holds across its \<open>await\<close>: the \<open>file\<close> and
  \<open>templateName\<close> it put in the form, and \<open>startPollingStatus\<close> of the same render,
  which reads that render's \<open>pollingInterval\<close>.
\<close>

record upload =
  up_file :: File
  up_template_name :: string
  up_pollingInterval :: "nat option"

datatype request = UploadCsv File string | CampaignStatusGet nat string

text \<open>
  The component's state cells (\<open>file_cell\<close> is the cell \<open>file\<close>), then what React
  keeps for the toast effect (the identity of the object in the \<open>toast\<close> cell, which
  the dependency array \<open>[toast]\<close> compares, and the timer the effect's cleanup will clear), then the browser: the next timer id,
  the active \<open>setInterval\<close> timers (id, the \<open>fileName\<close> their callback closes over,
  period in ms), the pending \<open>setTimeout\<close> timers (id, due time in ms), the requests
  awaiting a response and every request issued so far. A status request is recorded with
  the id of the interval whose callback issued it.
\<close>

record home =
  file_cell :: "File option"
  logs :: "Log list"
  isLoading :: bool
  toast :: Toast
  campaignStatus :: "CampaignStatus option"
  pollingInterval :: "nat option"
  templateName :: string
  toastRef :: nat
  toastTimer :: "nat option"
  nextTimerId :: nat
  intervals :: "(nat \<times> string \<times> nat) list"
  timeouts :: "(nat \<times> nat) list"
  uploadsInFlight :: "upload list"
  statusInFlight :: "(nat \<times> string) list"
  requestLog :: "request list"

subsection \<open>JavaScript primitives\<close>

definition digit_char :: "nat \<Rightarrow> char" where
  "digit_char d = ''0123456789'' ! d"

text \<open>\<open>Number.prototype.toString\<close> on a non-negative integer: its decimal digits.\<close>

fun toString :: "nat \<Rightarrow> string" where
  "toString n =
     (if n < 10 then [digit_char n] else toString (n div 10) @ [digit_char (n mod 10)])"

declare toString.simps [simp del]

text \<open>\<open>String.prototype.endsWith\<close>.\<close>

definition endsWith :: "string \<Rightarrow> string \<Rightarrow> bool" where
  "endsWith s suf = (length suf \<le> length s \<and> drop (length s - length suf) s = suf)"

text \<open>A value placed in a template literal: \<open>undefined\<close> prints as the word.\<close>

definition interpolate :: "string option \<Rightarrow> string" where
  "interpolate v = (case v of None \<Rightarrow> ''undefined'' | Some str \<Rightarrow> str)"

text \<open>\<open>data.detail || fallback\<close>: \<open>undefined\<close> and the empty string are falsy.\<close>

definition or_else :: "string option \<Rightarrow> string \<Rightarrow> string" where
  "or_else v fallback = (case v of None \<Rightarrow> fallback | Some str \<Rightarrow> if str = [] then fallback else str)"

text \<open>Truthiness of an optional number: \<open>undefined\<close> and \<open>0\<close> are falsy.\<close>

definition truthy :: "nat option \<Rightarrow> bool" where
  "truthy v = (case v of None \<Rightarrow> False | Some n \<Rightarrow> 0 < n)"

definition clearInterval :: "nat \<Rightarrow> home \<Rightarrow> home" where
  "clearInterval t s = s\<lparr>intervals := filter (\<lambda>e. fst e \<noteq> t) (intervals s)\<rparr>"

definition clearTimeout :: "nat \<Rightarrow> home \<Rightarrow> home" where
  "clearTimeout t s = s\<lparr>timeouts := filter (\<lambda>e. fst e \<noteq> t) (timeouts s)\<rparr>"

subsection \<open>The log and the toast cell\<close>

text \<open>The entry \<open>addLog\<close> builds, and \<open>setLogs((prevLogs) => [newLog, ...prevLogs])\<close>.\<close>

definition newLog :: "clock \<Rightarrow> string \<Rightarrow> log_type \<Rightarrow> Log" where
  "newLog c msg ty =
     \<lparr>log_id = toString (dateNow c), log_timestamp = toLocaleTimeString c,
      log_message = msg, log_type = ty\<rparr>"

definition addLog :: "clock \<Rightarrow> string \<Rightarrow> log_type \<Rightarrow> home \<Rightarrow> home" where
  "addLog c msg ty s = s\<lparr>logs := newLog c msg ty # logs s\<rparr>"

text \<open>\<open>setToast({...})\<close> stores a new object: the cell's identity changes at every call.\<close>

definition setToast :: "Toast \<Rightarrow> home \<Rightarrow> home" where
  "setToast v s = s\<lparr>toast := v, toastRef := Suc (toastRef s)\<rparr>"

subsection \<open>File selection\<close>

definition handleFileSelected :: "clock \<Rightarrow> File \<Rightarrow> home \<Rightarrow> home" where
  "handleFileSelected c selectedFile s =
     (if \<not> endsWith (file_name selectedFile) ''.csv''
      then setToast \<lparr>toast_message = ''Please upload a CSV file'', toast_type = Some ToastError\<rparr> s
      else addLog c (''File selected: '' @ file_name selectedFile) Info
             (s\<lparr>file_cell := Some selectedFile\<rparr>))"

subsection \<open>The status poller\<close>

text \<open>
  \<open>startPollingStatus\<close>, with the \<open>pollingInterval\<close> of its render as first argument.
  A timer id is a positive integer, so \<open>if (pollingInterval)\<close> tests it against
  \<open>null\<close>. Its first statement, under the comment "Clear any existing polling", is
  \<open>clearExistingPolling\<close>.
\<close>

definition clearExistingPolling :: "nat option \<Rightarrow> home \<Rightarrow> home" where
  "clearExistingPolling rendered s =
     (case rendered of None \<Rightarrow> s | Some t \<Rightarrow> clearInterval t s)"

definition startPollingStatus :: "nat option \<Rightarrow> clock \<Rightarrow> string \<Rightarrow> home \<Rightarrow> home" where
  "startPollingStatus rendered c fileName s =
     (let s1 = clearExistingPolling rendered s;
          s2 = addLog c ''Checking campaign status...'' Info s1;
          interval = nextTimerId s2;
          s3 = s2\<lparr>intervals := intervals s2 @ [(interval, fileName, 5000)],
                  nextTimerId := Suc interval\<rparr>
      in s3\<lparr>pollingInterval := Some interval\<rparr>)"

text \<open>The interval's callback up to its \<open>await fetch(...)\<close>.\<close>

definition pollCallback_start :: "nat \<Rightarrow> string \<Rightarrow> home \<Rightarrow> home" where
  "pollCallback_start interval fileName s =
     s\<lparr>statusInFlight := statusInFlight s @ [(interval, fileName)],
       requestLog := requestLog s @ [CampaignStatusGet interval fileName]\<rparr>"

text \<open>What the \<open>try\<close> block of the callback gets to work with: nothing when the
  fetch rejects, the response is not \<open>ok\<close>, or its body does not parse.\<close>

fun status_outcome :: "status_data fetched \<Rightarrow> status_data option" where
  "status_outcome (Rejected msg) = None"
| "status_outcome (Resolved ok body) =
     (if \<not> ok then None else (case body of Inl msg \<Rightarrow> None | Inr data \<Rightarrow> Some data))"

text \<open>The callback from the response on.\<close>

definition pollCallback_resume ::
    "nat \<Rightarrow> string \<Rightarrow> status_data fetched \<Rightarrow> clock \<Rightarrow> home \<Rightarrow> home" where
  "pollCallback_resume interval fileName r c s =
     (case status_outcome r of
        None \<Rightarrow> addLog c ''Error checking campaign status'' Error s
      | Some data \<Rightarrow>
          (let s1 = s\<lparr>campaignStatus := Some
                 \<lparr>cs_fileName = fileName, cs_status = d_status data,
                  cs_processed = d_processed data, cs_total = d_total data,
                  cs_successful = d_successful data, cs_failed = d_failed data,
                  cs_successRate = d_success_rate data\<rparr>\<rparr>
           in if d_status data = ''completed''
              then (clearInterval interval
                      (addLog c (''Campaign completed. Success rate: '' @
                                 interpolate (d_success_rate data)) Success s1))
                   \<lparr>pollingInterval := None\<rparr>
              else if truthy (d_processed data) \<and> truthy (d_total data)
              then addLog c (''Progress: '' @ toString (the (d_processed data)) @ ''/'' @
                             toString (the (d_total data)) @ '' contacts processed'') Info s1
              else s1))"

subsection \<open>Submission\<close>

text \<open>\<open>handleSendMessages\<close> up to its \<open>await fetch(...)\<close>.\<close>

definition handleSendMessages_start :: "clock \<Rightarrow> home \<Rightarrow> home" where
  "handleSendMessages_start c s =
     (case file_cell s of
        None \<Rightarrow>
          setToast \<lparr>toast_message = ''Please select a CSV file first'',
                    toast_type = Some ToastError\<rparr> s
      | Some f \<Rightarrow>
          (let s1 = addLog c ''Uploading file and starting campaign...'' Info
                      (s\<lparr>isLoading := True\<rparr>)
           in s1\<lparr>uploadsInFlight := uploadsInFlight s1 @
                    [\<lparr>up_file = f, up_template_name = templateName s,
                      up_pollingInterval = pollingInterval s\<rparr>],
                  requestLog := requestLog s1 @ [UploadCsv f (templateName s)]\<rparr>))"

text \<open>What the \<open>try\<close> block ends with: the message of the error thrown
  (\<open>Inl\<close>) or the body of an \<open>ok\<close> response.\<close>

fun upload_outcome :: "upload_data fetched \<Rightarrow> string + upload_data" where
  "upload_outcome (Rejected msg) = Inl msg"
| "upload_outcome (Resolved ok (Inl msg)) = Inl msg"
| "upload_outcome (Resolved ok (Inr data)) =
     (if \<not> ok then Inl (or_else (d_detail data) ''Error sending messages'') else Inr data)"

text \<open>\<open>handleSendMessages\<close> from the response on; \<open>c1\<close> is the clock at its
  own \<open>addLog\<close>, \<open>c2\<close> the clock at the \<open>addLog\<close> of \<open>startPollingStatus\<close>.\<close>

definition handleSendMessages_resume ::
    "upload \<Rightarrow> upload_data fetched \<Rightarrow> clock \<Rightarrow> clock \<Rightarrow> home \<Rightarrow> home" where
  "handleSendMessages_resume u r c1 c2 s =
     (let s' =
        (case upload_outcome r of
           Inr data \<Rightarrow>
             (let s1 = addLog c1 (''Campaign started: '' @ interpolate (d_message data)) Success s;
                  s2 = setToast \<lparr>toast_message = ''Campaign started successfully'',
                                 toast_type = Some ToastSuccess\<rparr> s1;
                  s3 = startPollingStatus (up_pollingInterval u) c2 (file_name (up_file u)) s2
              in s3\<lparr>campaignStatus := Some
                     \<lparr>cs_fileName = file_name (up_file u), cs_status = ''processing'',
                      cs_processed = None, cs_total = None, cs_successful = None,
                      cs_failed = None, cs_successRate = None\<rparr>\<rparr>)
         | Inl msg \<Rightarrow>
             setToast \<lparr>toast_message = ''Failed to start campaign'', toast_type = Some ToastError\<rparr>
               (addLog c1 (''Error: '' @ msg) Error s))
      in s'\<lparr>isLoading := False\<rparr>)"

subsection \<open>The two effects\<close>

text \<open>
  \<open>useEffect(..., [pollingInterval])\<close>: when the cell differs from the previous
  render's, React runs the cleanup the previous render left, which clears the interval
  that render saw.
\<close>

definition pollingEffect :: "home \<Rightarrow> home \<Rightarrow> home" where
  "pollingEffect prev s =
     (if pollingInterval s = pollingInterval prev then s
      else (case pollingInterval prev of None \<Rightarrow> s | Some t \<Rightarrow> clearInterval t s))"

text \<open>
  \<open>useEffect(..., [toast])\<close>: when the cell holds a new object, the previous cleanup
  clears its timer, and a shown toast arms a new one, due 3000 ms from now.
\<close>

definition toastEffect :: "nat \<Rightarrow> home \<Rightarrow> home \<Rightarrow> home" where
  "toastEffect now prev s =
     (if toastRef s = toastRef prev then s
      else (let s1 = (case toastTimer s of None \<Rightarrow> s | Some t \<Rightarrow> clearTimeout t s)
            in if toast_type (toast s1) = None then s1\<lparr>toastTimer := None\<rparr>
               else s1\<lparr>timeouts := timeouts s1 @ [(nextTimerId s1, now + 3000)],
                       toastTimer := Some (nextTimerId s1),
                       nextTimerId := Suc (nextTimerId s1)\<rparr>))"

text \<open>The commit after a handler has run: \<open>prev\<close> is the state of the previous render.\<close>

definition commit :: "nat \<Rightarrow> home \<Rightarrow> home \<Rightarrow> home" where
  "commit now prev s = toastEffect now prev (pollingEffect prev s)"

text \<open>The callback of the toast's timeout.\<close>

definition toastTimeout :: "home \<Rightarrow> home" where
  "toastTimeout s = setToast \<lparr>toast_message = [], toast_type = None\<rparr> s"

text \<open>\<open>show(message, severity)\<close> of the notification emitter: a \<open>setToast\<close> and the
  commit that follows it, at time \<open>now\<close>.\<close>

definition showToast :: "nat \<Rightarrow> Toast \<Rightarrow> home \<Rightarrow> home" where
  "showToast now v s = commit now s (setToast v s)"

subsection \<open>The event loop\<close>

text \<open>
  What can happen to the mounted component: the user picks a file, edits the template
  name or clicks the send button; an upload or a status request settles (the \<open>k\<close>-th of
  those in flight); an interval or a timeout fires. A cleared timer never fires. A turn
  of the loop is atomic: the handler runs, then React commits and runs the effects,
  before the next event is taken. The loop covers the component while it is mounted;
  unmounting is not part of it.
\<close>

datatype event =
    SelectFile File clock
  | ChangeTemplateName string
  | ClickSend clock
  | UploadSettles nat "upload_data fetched" clock clock
  | IntervalFires nat
  | StatusSettles nat "status_data fetched" clock
  | TimeoutFires nat

text \<open>
  Modelled from the spec: the \<open>Button\<close> component is not among the sources. The
  component renders it with \<open>disabled={!file || isLoading}\<close>, and the spec has the
  loading flag gate the submit action (exactly one submission outstanding at a time): a
  click on a disabled button does not reach \<open>handleSendMessages\<close>.
\<close>

definition buttonDisabled :: "home \<Rightarrow> bool" where
  "buttonDisabled s = (file_cell s = None \<or> isLoading s)"

definition remove_nth :: "nat \<Rightarrow> 'a list \<Rightarrow> 'a list" where
  "remove_nth k xs = take k xs @ drop (Suc k) xs"

fun handle :: "event \<Rightarrow> home \<Rightarrow> home" where
  "handle (SelectFile f c) s = handleFileSelected c f s"
| "handle (ChangeTemplateName v) s = s\<lparr>templateName := v\<rparr>"
| "handle (ClickSend c) s =
     (if buttonDisabled s then s else handleSendMessages_start c s)"
| "handle (UploadSettles k r c1 c2) s =
     (if k < length (uploadsInFlight s)
      then handleSendMessages_resume (uploadsInFlight s ! k) r c1 c2
             (s\<lparr>uploadsInFlight := remove_nth k (uploadsInFlight s)\<rparr>)
      else s)"
| "handle (IntervalFires t) s =
     (case map_of (intervals s) t of
        None \<Rightarrow> s
      | Some (fileName, period) \<Rightarrow> pollCallback_start t fileName s)"
| "handle (StatusSettles k r c) s =
     (if k < length (statusInFlight s)
      then pollCallback_resume (fst (statusInFlight s ! k)) (snd (statusInFlight s ! k)) r c
             (s\<lparr>statusInFlight := remove_nth k (statusInFlight s)\<rparr>)
      else s)"
| "handle (TimeoutFires t) s =
     (if t \<in> fst ` set (timeouts s)
      then toastTimeout (s\<lparr>timeouts := filter (\<lambda>e. fst e \<noteq> t) (timeouts s)\<rparr>)
      else s)"

text \<open>One turn of the loop: the handler, then the commit at time \<open>now\<close>.\<close>

definition step :: "event \<times> nat \<Rightarrow> home \<Rightarrow> home" where
  "step en s = commit (snd en) s (handle (fst en) s)"

definition run :: "(event \<times> nat) list \<Rightarrow> home \<Rightarrow> home" where
  "run es s = foldl (\<lambda>st en. step en st) s es"

text \<open>The component as mounted: the initial values of the \<open>useState\<close> cells, no
  timer, no request.\<close>

definition initialHome :: home where
  "initialHome =
     \<lparr>file_cell = None, logs = [], isLoading = False,
      toast = \<lparr>toast_message = [], toast_type = None\<rparr>,
      campaignStatus = None, pollingInterval = None,
      templateName = ''scalixity_marketing_2'',
      toastRef = 0, toastTimer = None, nextTimerId = 1,
      intervals = [], timeouts = [], uploadsInFlight = [], statusInFlight = [],
      requestLog = []\<rparr>"

text \<open>A sequence of \<open>addLog\<close> calls, each with its clock, message and severity.\<close>

definition addLogs :: "(clock \<times> string \<times> log_type) list \<Rightarrow> home \<Rightarrow> home" where
  "addLogs calls s = foldl (\<lambda>st (c, msg, ty). addLog c msg ty st) s calls"

text \<open>\<open>Number(id)\<close> for an id made of decimal digits.\<close>

definition digit_value :: "char \<Rightarrow> nat" where
  "digit_value ch = of_char ch - 48"

definition id_value :: "string \<Rightarrow> nat" where
  "id_value str = foldl (\<lambda>a ch. 10 * a + digit_value ch) 0 str"

subsection \<open>Vocabulary of the properties\<close>





text \<open>
  What holds between two turns of the event loop. At most one interval is active and
  it is the one in the \<open>pollingInterval\<close> cell, which holds an id already handed out.
  Every status request in flight comes from an interval already handed out. The toast's
  timer is pending exactly while a toast is shown, and no other timeout is. At most one
  upload is in flight, exactly while \<open>isLoading\<close>, and the \<open>pollingInterval\<close> it saw
  is the current one unless the cell has been emptied since.
\<close>

definition poller_inv :: "home \<Rightarrow> bool" where
  "poller_inv s =
     (length (intervals s) \<le> 1
      \<and> list_all (\<lambda>e. pollingInterval s = Some (fst e)) (intervals s)
      \<and> (case pollingInterval s of None \<Rightarrow> True | Some t \<Rightarrow> t < nextTimerId s))"

definition inflight_inv :: "home \<Rightarrow> bool" where
  "inflight_inv s = list_all (\<lambda>p. fst p < nextTimerId s) (statusInFlight s)"

definition toast_inv :: "home \<Rightarrow> bool" where
  "toast_inv s =
     (case toastTimer s of
        None \<Rightarrow> timeouts s = [] \<and> toast_type (toast s) = None
      | Some t \<Rightarrow> map fst (timeouts s) = [t] \<and> toast_type (toast s) \<noteq> None)"

definition upload_inv :: "home \<Rightarrow> bool" where
  "upload_inv s =
     (length (uploadsInFlight s) \<le> 1
      \<and> isLoading s = (uploadsInFlight s \<noteq> [])
      \<and> list_all (\<lambda>u. pollingInterval s = None \<or> up_pollingInterval u = pollingInterval s)
           (uploadsInFlight s))"

definition home_inv :: "home \<Rightarrow> bool" where
  "home_inv s = (poller_inv s \<and> inflight_inv s \<and> toast_inv s \<and> upload_inv s)"

subsection \<open>Sample inputs\<close>

definition c100 :: clock where
  "c100 = \<lparr>dateNow = 100, toLocaleTimeString = ''10:00:00''\<rparr>"

definition c300 :: clock where
  "c300 = \<lparr>dateNow = 300, toLocaleTimeString = ''10:00:02''\<rparr>"

definition contacts_csv :: File where
  "contacts_csv = \<lparr>file_name = ''contacts.csv'', file_size = 2048\<rparr>"

definition notes_txt :: File where
  "notes_txt = \<lparr>file_name = ''notes.txt'', file_size = 12\<rparr>"

text \<open>An upload of \<open>contacts.csv\<close> sent from a render that saw no poller.\<close>

definition contacts_upload :: upload where
  "contacts_upload =
     \<lparr>up_file = contacts_csv, up_template_name = ''promo1'', up_pollingInterval = None\<rparr>"

text \<open>HTTP 200 with \<open>{message: "queued"}\<close> and HTTP 400 with
  \<open>{detail: "Invalid file format"}\<close>.\<close>

definition queued_200 :: "upload_data fetched" where
  "queued_200 = Resolved True (Inr \<lparr>d_message = Some ''queued'', d_detail = None\<rparr>)"

definition invalid_format_400 :: "upload_data fetched" where
  "invalid_format_400 =
     Resolved False (Inr \<lparr>d_message = None, d_detail = Some ''Invalid file format''\<rparr>)"

definition c5400 :: clock where
  "c5400 = \<lparr>dateNow = 5400, toLocaleTimeString = ''10:00:07''\<rparr>"


text \<open>Select \<open>contacts.csv\<close>, send, the upload succeeds, the interval fires once.\<close>

definition polling_run :: "(event \<times> nat) list" where
  "polling_run =
     [(SelectFile contacts_csv c100, 100), (ClickSend c100, 100),
      (UploadSettles 0 queued_200 c300 c300, 300), (IntervalFires 1, 5300)]"

text \<open>The same submission, then a second click on send while the first poller runs.\<close>

definition resubmit_run :: "(event \<times> nat) list" where
  "resubmit_run =
     [(SelectFile contacts_csv c100, 100), (ClickSend c100, 100),
      (UploadSettles 0 queued_200 c300 c300, 300), (ClickSend c5400, 5400)]"


definition error_toast :: Toast where
  "error_toast = \<lparr>toast_message = ''Please upload a CSV file'', toast_type = Some ToastError\<rparr>"

definition success_toast :: Toast where
  "success_toast =
     \<lparr>toast_message = ''Campaign started successfully'', toast_type = Some ToastSuccess\<rparr>"


section \<open>Properties\<close>

subsection \<open>Decimal rendering\<close>

lemma toString_digit: "n < 10 \<Longrightarrow> toString n = [digit_char n]"
  by (simp add: toString.simps)

lemma toString_more:
  "\<not> n < 10 \<Longrightarrow> toString n = toString (n div 10) @ [digit_char (n mod 10)]"
  by (subst toString.simps) simp

lemma digit_value_digit_char: "d < 10 \<Longrightarrow> digit_value (digit_char d) = d"
proof -
  assume "d < 10"
  then have "d \<in> {0, 1, 2, 3, 4, 5, 6, 7, 8, 9}"
    by auto
  then show ?thesis
    by (auto simp: digit_value_def digit_char_def)
qed

lemma id_value_snoc: "id_value (str @ [ch]) = 10 * id_value str + digit_value ch"
  by (simp add: id_value_def)

text \<open>Reading an id back gives the clock value it was printed from.\<close>

lemma id_value_toString: "id_value (toString n) = n"
proof (induction n rule: toString.induct)
  case (1 n)
  show ?case
  proof (cases "n < 10")
    case True
    then show ?thesis
      by (simp add: toString_digit id_value_def digit_value_digit_char)
  next
    case False
    with 1 have "id_value (toString (n div 10)) = n div 10"
      by simp
    with False show ?thesis
      by (simp add: toString_more id_value_snoc digit_value_digit_char)
  qed
qed

subsection \<open>Handlers and effects as state updates\<close>

lemmas handler_defs =
  buttonDisabled_def handleFileSelected_def handleSendMessages_start_def handleSendMessages_resume_def
  clearExistingPolling_def startPollingStatus_def pollCallback_start_def
  pollCallback_resume_def toastTimeout_def
  setToast_def addLog_def clearInterval_def clearTimeout_def

lemma pollingEffect_fields:
  "pollingInterval (pollingEffect prev s') = pollingInterval s'"
  "intervals (pollingEffect prev s') =
     (if pollingInterval s' = pollingInterval prev then intervals s'
      else (case pollingInterval prev of None \<Rightarrow> intervals s'
            | Some t \<Rightarrow> filter (\<lambda>e. fst e \<noteq> t) (intervals s')))"
  "nextTimerId (pollingEffect prev s') = nextTimerId s'"
  "timeouts (pollingEffect prev s') = timeouts s'"
  "toastTimer (pollingEffect prev s') = toastTimer s'"
  "toast (pollingEffect prev s') = toast s'"
  "toastRef (pollingEffect prev s') = toastRef s'"
  "uploadsInFlight (pollingEffect prev s') = uploadsInFlight s'"
  "isLoading (pollingEffect prev s') = isLoading s'"
  "statusInFlight (pollingEffect prev s') = statusInFlight s'"
  "requestLog (pollingEffect prev s') = requestLog s'"
  "logs (pollingEffect prev s') = logs s'"
  "campaignStatus (pollingEffect prev s') = campaignStatus s'"
  "file_cell (pollingEffect prev s') = file_cell s'"
  "templateName (pollingEffect prev s') = templateName s'"
  by (simp_all add: pollingEffect_def clearInterval_def split: option.split)

lemma toastEffect_fields:
  "pollingInterval (toastEffect now prev s') = pollingInterval s'"
  "intervals (toastEffect now prev s') = intervals s'"
  "nextTimerId (toastEffect now prev s') =
     (if toastRef s' = toastRef prev \<or> toast_type (toast s') = None then nextTimerId s'
      else Suc (nextTimerId s'))"
  "timeouts (toastEffect now prev s') =
     (if toastRef s' = toastRef prev then timeouts s'
      else (case toastTimer s' of None \<Rightarrow> timeouts s'
            | Some t \<Rightarrow> filter (\<lambda>e. fst e \<noteq> t) (timeouts s'))
           @ (if toast_type (toast s') = None then [] else [(nextTimerId s', now + 3000)]))"
  "toastTimer (toastEffect now prev s') =
     (if toastRef s' = toastRef prev then toastTimer s'
      else if toast_type (toast s') = None then None else Some (nextTimerId s'))"
  "toast (toastEffect now prev s') = toast s'"
  "toastRef (toastEffect now prev s') = toastRef s'"
  "uploadsInFlight (toastEffect now prev s') = uploadsInFlight s'"
  "isLoading (toastEffect now prev s') = isLoading s'"
  "statusInFlight (toastEffect now prev s') = statusInFlight s'"
  "requestLog (toastEffect now prev s') = requestLog s'"
  "logs (toastEffect now prev s') = logs s'"
  "campaignStatus (toastEffect now prev s') = campaignStatus s'"
  "file_cell (toastEffect now prev s') = file_cell s'"
  "templateName (toastEffect now prev s') = templateName s'"
  by (auto simp add: toastEffect_def clearTimeout_def Let_def split: option.split)

lemma commit_fields:
  "pollingInterval (commit now prev s') = pollingInterval s'"
  "intervals (commit now prev s') =
     (if pollingInterval s' = pollingInterval prev then intervals s'
      else (case pollingInterval prev of None \<Rightarrow> intervals s'
            | Some t \<Rightarrow> filter (\<lambda>e. fst e \<noteq> t) (intervals s')))"
  "nextTimerId (commit now prev s') =
     (if toastRef s' = toastRef prev \<or> toast_type (toast s') = None then nextTimerId s'
      else Suc (nextTimerId s'))"
  "timeouts (commit now prev s') =
     (if toastRef s' = toastRef prev then timeouts s'
      else (case toastTimer s' of None \<Rightarrow> timeouts s'
            | Some t \<Rightarrow> filter (\<lambda>e. fst e \<noteq> t) (timeouts s'))
           @ (if toast_type (toast s') = None then [] else [(nextTimerId s', now + 3000)]))"
  "toastTimer (commit now prev s') =
     (if toastRef s' = toastRef prev then toastTimer s'
      else if toast_type (toast s') = None then None else Some (nextTimerId s'))"
  "toast (commit now prev s') = toast s'"
  "toastRef (commit now prev s') = toastRef s'"
  "uploadsInFlight (commit now prev s') = uploadsInFlight s'"
  "isLoading (commit now prev s') = isLoading s'"
  "statusInFlight (commit now prev s') = statusInFlight s'"
  "requestLog (commit now prev s') = requestLog s'"
  "logs (commit now prev s') = logs s'"
  "campaignStatus (commit now prev s') = campaignStatus s'"
  "file_cell (commit now prev s') = file_cell s'"
  "templateName (commit now prev s') = templateName s'"
  by (simp_all add: commit_def pollingEffect_fields toastEffect_fields cong: option.case_cong)

lemma list_all_False: "list_all (\<lambda>e. False) xs = (xs = [])"
  by (cases xs) simp_all

lemma filter_registered:
  "list_all (\<lambda>e. t = fst e) xs \<Longrightarrow> filter (\<lambda>e. fst e \<noteq> t) xs = []"
  by (induction xs) auto

lemma filter_registered2:
  "list_all (\<lambda>e. t = fst e) xs \<Longrightarrow> filter (\<lambda>e. fst e \<noteq> a \<and> fst e \<noteq> t) xs = []"
  by (induction xs) auto

lemma resume_failure:
  "upload_outcome r = Inl msg \<Longrightarrow>
   handleSendMessages_resume u r c1 c2 s =
     s\<lparr>logs := newLog c1 (''Error: '' @ msg) Error # logs s,
       toast := \<lparr>toast_message = ''Failed to start campaign'', toast_type = Some ToastError\<rparr>,
       toastRef := Suc (toastRef s), isLoading := False\<rparr>"
  by (simp add: handleSendMessages_resume_def setToast_def addLog_def)

lemma resume_success:
  "upload_outcome r = Inr data \<Longrightarrow>
   handleSendMessages_resume u r c1 c2 s =
     s\<lparr>logs := newLog c2 ''Checking campaign status...'' Info
               # newLog c1 (''Campaign started: '' @ interpolate (d_message data)) Success # logs s,
       toast := \<lparr>toast_message = ''Campaign started successfully'', toast_type = Some ToastSuccess\<rparr>,
       toastRef := Suc (toastRef s),
       intervals := (case up_pollingInterval u of None \<Rightarrow> intervals s
                     | Some t \<Rightarrow> filter (\<lambda>e. fst e \<noteq> t) (intervals s))
                    @ [(nextTimerId s, file_name (up_file u), 5000)],
       nextTimerId := Suc (nextTimerId s),
       pollingInterval := Some (nextTimerId s),
       campaignStatus := Some
         \<lparr>cs_fileName = file_name (up_file u), cs_status = ''processing'',
          cs_processed = None, cs_total = None, cs_successful = None,
          cs_failed = None, cs_successRate = None\<rparr>,
       isLoading := False\<rparr>"
  by (cases "up_pollingInterval u")
     (simp_all add: handleSendMessages_resume_def startPollingStatus_def
      clearExistingPolling_def setToast_def addLog_def
      clearInterval_def Let_def)

lemma tick_failure:
  "status_outcome r = None \<Longrightarrow>
   pollCallback_resume interval fileName r c s =
     s\<lparr>logs := newLog c ''Error checking campaign status'' Error # logs s\<rparr>"
  by (simp add: pollCallback_resume_def addLog_def)

lemma tick_completed:
  "status_outcome r = Some data \<Longrightarrow> d_status data = ''completed'' \<Longrightarrow>
   pollCallback_resume interval fileName r c s =
     s\<lparr>campaignStatus := Some
         \<lparr>cs_fileName = fileName, cs_status = d_status data,
          cs_processed = d_processed data, cs_total = d_total data,
          cs_successful = d_successful data, cs_failed = d_failed data,
          cs_successRate = d_success_rate data\<rparr>,
       logs := newLog c (''Campaign completed. Success rate: '' @
                         interpolate (d_success_rate data)) Success # logs s,
       intervals := filter (\<lambda>e. fst e \<noteq> interval) (intervals s),
       pollingInterval := None\<rparr>"
  by (simp add: pollCallback_resume_def addLog_def clearInterval_def)

lemma tick_running:
  "status_outcome r = Some data \<Longrightarrow> d_status data \<noteq> ''completed'' \<Longrightarrow>
   pollCallback_resume interval fileName r c s =
     s\<lparr>campaignStatus := Some
         \<lparr>cs_fileName = fileName, cs_status = d_status data,
          cs_processed = d_processed data, cs_total = d_total data,
          cs_successful = d_successful data, cs_failed = d_failed data,
          cs_successRate = d_success_rate data\<rparr>,
       logs := (if truthy (d_processed data) \<and> truthy (d_total data)
                then [newLog c (''Progress: '' @ toString (the (d_processed data)) @ ''/'' @
                        toString (the (d_total data)) @ '' contacts processed'') Info]
                else []) @ logs s\<rparr>"
  by (simp add: pollCallback_resume_def addLog_def Let_def)

lemma filter_filter_registered:
  "list_all (\<lambda>e. t = fst e) xs \<Longrightarrow> filter (\<lambda>e. fst e \<noteq> t) (filter P xs) = []"
  by (induction xs) auto

lemma poller_inv_step: "poller_inv s \<Longrightarrow> poller_inv (step en s)"
proof (cases en)
  case (Pair ev now)
  assume inv: "poller_inv s"
  show ?thesis
  proof (cases ev)
    case (SelectFile f c)
    with Pair inv show ?thesis
      by (simp add: step_def commit_fields poller_inv_def handler_defs split: option.splits)
  next
    case (ChangeTemplateName v)
    with Pair inv show ?thesis
      by (simp add: step_def commit_fields poller_inv_def handler_defs split: option.splits)
  next
    case (ClickSend c)
    with Pair inv show ?thesis
      by (simp add: step_def commit_fields poller_inv_def handler_defs split: option.splits)
  next
    case (UploadSettles k r c1 c2)
    show ?thesis
    proof (cases "k < length (uploadsInFlight s)")
      case False
      with Pair UploadSettles inv show ?thesis
        by (simp add: step_def commit_fields poller_inv_def split: option.splits)
    next
      case True
      show ?thesis
      proof (cases "upload_outcome r")
        case (Inl msg)
        with True Pair UploadSettles inv show ?thesis
          by (simp add: step_def commit_fields poller_inv_def resume_failure split: option.splits)
      next
        case (Inr data)
        with True Pair UploadSettles inv show ?thesis
          by (auto simp add: step_def commit_fields poller_inv_def resume_success list_all_False
              filter_registered filter_registered2 filter_filter_registered split: option.splits)
      qed
    qed
  next
    case (IntervalFires i)
    with Pair inv show ?thesis
      by (simp add: step_def commit_fields poller_inv_def handler_defs split: option.splits)
  next
    case (StatusSettles k r c)
    show ?thesis
    proof (cases "k < length (statusInFlight s)")
      case False
      with Pair StatusSettles inv show ?thesis
        by (simp add: step_def commit_fields poller_inv_def split: option.splits)
    next
      case True
      show ?thesis
      proof (cases "status_outcome r")
        case None
        with True Pair StatusSettles inv show ?thesis
          by (simp add: step_def commit_fields poller_inv_def tick_failure split: option.splits)
      next
        case (Some data)
        show ?thesis
        proof (cases "d_status data = ''completed''")
          case completed: True
          with Some True Pair StatusSettles inv show ?thesis
            by (auto simp add: step_def commit_fields poller_inv_def tick_completed list_all_False
                filter_registered filter_registered2 filter_filter_registered split: option.splits)
        next
          case False
          with Some True Pair StatusSettles inv show ?thesis
            by (simp add: step_def commit_fields poller_inv_def tick_running split: option.splits)
        qed
      qed
    qed
  next
    case (TimeoutFires i)
    with Pair inv show ?thesis
      by (simp add: step_def commit_fields poller_inv_def handler_defs split: option.splits)
  qed
qed


lemma nextTimerId_step: "nextTimerId s \<le> nextTimerId (step en s)"
proof (cases en)
  case (Pair ev now)
  show ?thesis
  proof (cases ev)
    case (UploadSettles k r c1 c2)
    with Pair show ?thesis
      by (cases "upload_outcome r")
         (simp_all add: step_def commit_fields resume_failure resume_success)
  next
    case (StatusSettles k r c)
    show ?thesis
    proof (cases "status_outcome r")
      case None
      with Pair StatusSettles show ?thesis
        by (simp add: step_def commit_fields tick_failure)
    next
      case (Some data)
      with Pair StatusSettles show ?thesis
        by (cases "d_status data = ''completed''")
           (simp_all add: step_def commit_fields tick_completed tick_running)
    qed
  qed (simp_all add: Pair step_def commit_fields handler_defs split: option.splits)
qed

lemma statusInFlight_step:
  "set (statusInFlight (step en s)) \<subseteq>
     set (statusInFlight s) \<union> {p. fst p \<in> fst ` set (intervals s)}"
proof (cases en)
  case (Pair ev now)
  show ?thesis
  proof (cases ev)
    case (UploadSettles k r c1 c2)
    with Pair show ?thesis
      by (cases "upload_outcome r")
         (auto simp add: step_def commit_fields resume_failure resume_success)
  next
    case (StatusSettles k r c)
    have sub: "set (remove_nth k (statusInFlight s)) \<subseteq> set (statusInFlight s)"
      by (auto simp: remove_nth_def dest: in_set_takeD in_set_dropD)
    show ?thesis
    proof (cases "status_outcome r")
      case None
      with Pair StatusSettles sub show ?thesis
        by (auto simp add: step_def commit_fields tick_failure)
    next
      case (Some data)
      with Pair StatusSettles sub show ?thesis
        by (cases "d_status data = ''completed''")
           (auto simp add: step_def commit_fields tick_completed tick_running)
    qed
  next
    case (IntervalFires i)
    with Pair show ?thesis
      by (force simp add: step_def commit_fields handler_defs split: option.splits
          dest!: map_of_SomeD)
  qed (auto simp add: Pair step_def commit_fields handler_defs split: option.splits)
qed

lemma inflight_inv_step:
  assumes "poller_inv s" and "inflight_inv s"
  shows "inflight_inv (step en s)"
proof -
  have old: "\<forall>e \<in> set (intervals s). fst e < nextTimerId s"
    using assms(1) by (auto simp: poller_inv_def list_all_iff split: option.splits)
  have "\<forall>p \<in> set (statusInFlight (step en s)). fst p < nextTimerId s"
  proof
    fix p
    assume "p \<in> set (statusInFlight (step en s))"
    with statusInFlight_step [of en s]
    have "p \<in> set (statusInFlight s) \<or> fst p \<in> fst ` set (intervals s)"
      by blast
    then show "fst p < nextTimerId s"
    proof
      assume "p \<in> set (statusInFlight s)"
      with assms(2) show ?thesis
        by (simp add: inflight_inv_def list_all_iff)
    next
      assume "fst p \<in> fst ` set (intervals s)"
      with old show ?thesis
        by auto
    qed
  qed
  with nextTimerId_step [of s en] show ?thesis
    by (fastforce simp: inflight_inv_def list_all_iff)
qed

lemma filter_single: "map fst xs = [t] \<Longrightarrow> filter (\<lambda>e. fst e \<noteq> t) xs = []"
  by (cases xs) auto

lemma toast_inv_step: "toast_inv s \<Longrightarrow> toast_inv (step en s)"
proof (cases en)
  case (Pair ev now)
  assume inv: "toast_inv s"
  show ?thesis
  proof (cases ev)
    case (SelectFile f c)
    with Pair inv show ?thesis
      by (auto simp add: toast_inv_def step_def commit_fields handler_defs filter_single
          split: option.splits)
  next
    case (ChangeTemplateName v)
    with Pair inv show ?thesis
      by (simp add: toast_inv_def step_def commit_fields split: option.splits)
  next
    case (ClickSend c)
    with Pair inv show ?thesis
      by (auto simp add: toast_inv_def step_def commit_fields handler_defs filter_single
          split: option.splits)
  next
    case (UploadSettles k r c1 c2)
    with Pair inv show ?thesis
      by (cases "upload_outcome r")
         (auto simp add: toast_inv_def step_def commit_fields resume_failure resume_success
          filter_single split: option.splits)
  next
    case (IntervalFires i)
    with Pair inv show ?thesis
      by (simp add: toast_inv_def step_def commit_fields handler_defs split: option.splits)
  next
    case (StatusSettles k r c)
    show ?thesis
    proof (cases "status_outcome r")
      case None
      with Pair StatusSettles inv show ?thesis
        by (simp add: toast_inv_def step_def commit_fields tick_failure split: option.splits)
    next
      case (Some data)
      with Pair StatusSettles inv show ?thesis
        by (cases "d_status data = ''completed''")
           (simp_all add: toast_inv_def step_def commit_fields tick_completed tick_running
            split: option.splits)
    qed
  next
    case (TimeoutFires i)
    with Pair inv show ?thesis
      by (auto simp add: toast_inv_def step_def commit_fields handler_defs filter_single
          split: option.splits)
  qed
qed

lemma upload_inv_step: "upload_inv s \<Longrightarrow> upload_inv (step en s)"
proof (cases en)
  case (Pair ev now)
  assume inv: "upload_inv s"
  show ?thesis
  proof (cases ev)
    case (SelectFile f c)
    with Pair inv show ?thesis
      by (simp add: upload_inv_def step_def commit_fields handler_defs)
  next
    case (ChangeTemplateName v)
    with Pair inv show ?thesis
      by (simp add: upload_inv_def step_def commit_fields)
  next
    case (ClickSend c)
    with Pair inv show ?thesis
      by (auto simp add: upload_inv_def step_def commit_fields handler_defs split: option.splits)
  next
    case (UploadSettles k r c1 c2)
    have "k < length (uploadsInFlight s) \<Longrightarrow> remove_nth k (uploadsInFlight s) = []"
      using inv by (cases "uploadsInFlight s") (auto simp: upload_inv_def remove_nth_def)
    with Pair UploadSettles inv show ?thesis
      by (cases "upload_outcome r")
         (auto simp add: upload_inv_def step_def commit_fields resume_failure resume_success)
  next
    case (IntervalFires i)
    with Pair inv show ?thesis
      by (simp add: upload_inv_def step_def commit_fields handler_defs split: option.splits)
  next
    case (StatusSettles k r c)
    show ?thesis
    proof (cases "status_outcome r")
      case None
      with Pair StatusSettles inv show ?thesis
        by (simp add: upload_inv_def step_def commit_fields tick_failure)
    next
      case (Some data)
      with Pair StatusSettles inv show ?thesis
        by (cases "d_status data = ''completed''")
           (simp_all add: upload_inv_def step_def commit_fields tick_completed tick_running
            list_all_iff)
    qed
  next
    case (TimeoutFires i)
    with Pair inv show ?thesis
      by (simp add: upload_inv_def step_def commit_fields handler_defs)
  qed
qed


lemma home_inv_initial: "home_inv initialHome"
  by (simp add: home_inv_def poller_inv_def inflight_inv_def toast_inv_def upload_inv_def initialHome_def)

lemma home_inv_step: "home_inv s \<Longrightarrow> home_inv (step en s)"
  by (simp add: home_inv_def poller_inv_step inflight_inv_step toast_inv_step upload_inv_step)

lemma home_inv_run: "home_inv s \<Longrightarrow> home_inv (run es s)"
  unfolding run_def by (induction es arbitrary: s) (simp_all add: home_inv_step)

lemma home_inv_reachable: "home_inv (run es initialHome)"
  by (rule home_inv_run [OF home_inv_initial])







text \<open>No turn of the loop removes or alters a log entry.\<close>

lemma logs_step: "suffix (logs s) (logs (step en s))"
proof (cases en)
  case (Pair ev now)
  show ?thesis
  proof (cases ev)
    case (UploadSettles k r c1 c2)
    with Pair show ?thesis
      by (cases "upload_outcome r")
         (simp_all add: step_def commit_fields resume_failure resume_success suffix_def)
  next
    case (StatusSettles k r c)
    show ?thesis
    proof (cases "status_outcome r")
      case None
      with Pair StatusSettles show ?thesis
        by (simp add: step_def commit_fields tick_failure suffix_def)
    next
      case (Some data)
      with Pair StatusSettles show ?thesis
        by (cases "d_status data = ''completed''")
           (simp_all add: step_def commit_fields tick_completed tick_running suffix_def)
    qed
  qed (simp_all add: Pair step_def commit_fields handler_defs suffix_def split: option.splits)
qed

lemma logs_run: "suffix (logs s) (logs (run es s))"
  unfolding run_def
proof (induction es arbitrary: s)
  case Nil
  show ?case by simp
next
  case (Cons en es)
  have "suffix (logs s) (logs (step en s))"
    by (rule logs_step)
  also have "suffix (logs (step en s)) (logs (foldl (\<lambda>st en. step en st) (step en s) es))"
    by (rule Cons.IH)
  finally show ?case
    by simp
qed

subsection \<open>The sample runs\<close>

lemmas eval_defs =
  buttonDisabled_def run_def step_def commit_def pollingEffect_def toastEffect_def handleFileSelected_def
  handleSendMessages_start_def handleSendMessages_resume_def startPollingStatus_def
  clearExistingPolling_def
  pollCallback_start_def pollCallback_resume_def toastTimeout_def setToast_def addLog_def
  newLog_def clearInterval_def clearTimeout_def remove_nth_def endsWith_def interpolate_def
  or_else_def truthy_def initialHome_def c100_def c300_def contacts_csv_def queued_200_def
  toString_digit toString_more digit_char_def Let_def

lemma polling_run_state:
  "run polling_run initialHome =
     \<lparr>file_cell = Some contacts_csv,
      logs = [newLog c300 ''Checking campaign status...'' Info,
              newLog c300 ''Campaign started: queued'' Success,
              newLog c100 ''Uploading file and starting campaign...'' Info,
              newLog c100 ''File selected: contacts.csv'' Info],
      isLoading = False,
      toast = \<lparr>toast_message = ''Campaign started successfully'', toast_type = Some ToastSuccess\<rparr>,
      campaignStatus = Some \<lparr>cs_fileName = ''contacts.csv'', cs_status = ''processing'',
          cs_processed = None, cs_total = None, cs_successful = None,
          cs_failed = None, cs_successRate = None\<rparr>,
      pollingInterval = Some 1,
      templateName = ''scalixity_marketing_2'',
      toastRef = 1, toastTimer = Some 2, nextTimerId = 3,
      intervals = [(1, ''contacts.csv'', 5000)], timeouts = [(2, 3300)],
      uploadsInFlight = [], statusInFlight = [(1, ''contacts.csv'')],
      requestLog = [UploadCsv contacts_csv ''scalixity_marketing_2'',
                    CampaignStatusGet 1 ''contacts.csv'']\<rparr>"
  by (simp add: polling_run_def eval_defs)

lemma resubmit_run_state:
  "intervals (run resubmit_run initialHome) = [(1, ''contacts.csv'', 5000)]
   \<and> nextTimerId (run resubmit_run initialHome) = 3
   \<and> uploadsInFlight (run resubmit_run initialHome) =
       [\<lparr>up_file = contacts_csv, up_template_name = ''scalixity_marketing_2'',
         up_pollingInterval = Some 1\<rparr>]"
  by (simp add: resubmit_run_def eval_defs c5400_def)

subsection \<open>File selection\<close>

text \<open>
  C5. A file whose name does not end in \<open>.csv\<close> changes nothing but the toast cell,
  which receives one error notification (one \<open>setToast\<close>: the cell's identity moves by
  one); the selected file and the log stay as they were. A name ending in \<open>.csv\<close>
  replaces the selected file and puts one info entry naming the file at the head of the log.
\<close>

theorem handleFileSelected_spec:
  "(\<not> endsWith (file_name f) ''.csv'' \<longrightarrow>
      handleFileSelected c f s =
        s\<lparr>toast := \<lparr>toast_message = ''Please upload a CSV file'', toast_type = Some ToastError\<rparr>,
          toastRef := Suc (toastRef s)\<rparr>
      \<and> file_cell (handleFileSelected c f s) = file_cell s
      \<and> logs (handleFileSelected c f s) = logs s)
   \<and> (endsWith (file_name f) ''.csv'' \<longrightarrow>
      handleFileSelected c f s =
        s\<lparr>file_cell := Some f,
          logs := newLog c (''File selected: '' @ file_name f) Info # logs s\<rparr>)"
  by (simp add: handleFileSelected_def setToast_def addLog_def)

text \<open>\<open>notes.txt\<close> is refused and \<open>contacts.csv\<close> accepted by the freshly mounted
  component.\<close>

theorem handleFileSelected_spec_witness:
  "handleFileSelected c100 notes_txt initialHome =
     initialHome\<lparr>toast := \<lparr>toast_message = ''Please upload a CSV file'',
                            toast_type = Some ToastError\<rparr>,
                 toastRef := 1\<rparr>
   \<and> logs (handleFileSelected c100 notes_txt initialHome) = []
   \<and> logs (handleFileSelected c100 contacts_csv initialHome) =
       [\<lparr>log_id = ''100'', log_timestamp = ''10:00:00'',
         log_message = ''File selected: contacts.csv'', log_type = Info\<rparr>]
   \<and> file_cell (handleFileSelected c100 contacts_csv initialHome) = Some contacts_csv"
proof -
  have rejected: "\<not> endsWith (file_name notes_txt) ''.csv''"
    by (simp add: endsWith_def notes_txt_def)
  have accepted: "endsWith (file_name contacts_csv) ''.csv''"
    by (simp add: endsWith_def contacts_csv_def)
  from rejected handleFileSelected_spec [of notes_txt c100 initialHome]
  have a: "handleFileSelected c100 notes_txt initialHome =
     initialHome\<lparr>toast := \<lparr>toast_message = ''Please upload a CSV file'',
                            toast_type = Some ToastError\<rparr>,
                 toastRef := Suc (toastRef initialHome)\<rparr>"
    and b: "logs (handleFileSelected c100 notes_txt initialHome) = logs initialHome"
    by blast+
  from accepted handleFileSelected_spec [of contacts_csv c100 initialHome]
  have c: "handleFileSelected c100 contacts_csv initialHome =
     initialHome\<lparr>file_cell := Some contacts_csv,
        logs := newLog c100 (''File selected: '' @ file_name contacts_csv) Info # logs initialHome\<rparr>"
    by blast
  have d: "toString 100 = ''100''"
    by (simp add: toString_digit toString_more digit_char_def)
  show ?thesis
    unfolding a b c by (simp add: initialHome_def newLog_def c100_def d contacts_csv_def)
qed

subsection \<open>Submission\<close>

text \<open>
  C9. When no file is selected, \<open>handleSendMessages\<close> returns at once: it sets the
  error toast "Please select a CSV file first" and nothing else. No request is issued
  and none is in flight afterwards; the log, the campaign status, the poller and the
  loading flag are untouched.
\<close>

theorem submit_without_file:
  "file_cell s = None \<Longrightarrow>
     handleSendMessages_start c s =
       s\<lparr>toast := \<lparr>toast_message = ''Please select a CSV file first'',
                    toast_type = Some ToastError\<rparr>,
         toastRef := Suc (toastRef s)\<rparr>
     \<and> requestLog (handleSendMessages_start c s) = requestLog s
     \<and> uploadsInFlight (handleSendMessages_start c s) = uploadsInFlight s
     \<and> logs (handleSendMessages_start c s) = logs s
     \<and> campaignStatus (handleSendMessages_start c s) = campaignStatus s
     \<and> pollingInterval (handleSendMessages_start c s) = pollingInterval s
     \<and> intervals (handleSendMessages_start c s) = intervals s
     \<and> isLoading (handleSendMessages_start c s) = isLoading s"
  by (simp add: handleSendMessages_start_def setToast_def)

theorem submit_without_file_witness:
  "handleSendMessages_start c100 initialHome =
     initialHome\<lparr>toast := \<lparr>toast_message = ''Please select a CSV file first'',
                            toast_type = Some ToastError\<rparr>,
       toastRef := 1\<rparr>
   \<and> requestLog (handleSendMessages_start c100 initialHome) = []
   \<and> uploadsInFlight (handleSendMessages_start c100 initialHome) = []"
proof -
  have none: "file_cell initialHome = None"
    by (simp add: initialHome_def)
  from submit_without_file [OF none, of c100] show ?thesis
    by (simp add: initialHome_def)
qed

text \<open>
  C4, as the code has it. A failed submission (the fetch rejects, the body does not
  parse, or the response is not \<open>ok\<close>) puts one error entry "Error: ..." at the head
  of the log and sets the error toast to the fixed text "Failed to start campaign"; it
  clears the loading flag and changes nothing else, so no campaign status is created
  and no poller started. The log entry carries the message of the error: the backend's
  \<open>detail\<close> when the response is not \<open>ok\<close> and the detail is present and not empty,
  "Error sending messages" when it is absent or empty, and the transport or parse
  error's own message otherwise.
\<close>

theorem failed_upload:
  "(upload_outcome r = Inl msg \<longrightarrow>
      handleSendMessages_resume u r c1 c2 s =
        s\<lparr>logs := newLog c1 (''Error: '' @ msg) Error # logs s,
          toast := \<lparr>toast_message = ''Failed to start campaign'', toast_type = Some ToastError\<rparr>,
          toastRef := Suc (toastRef s), isLoading := False\<rparr>)
   \<and> upload_outcome (Rejected msg) = Inl msg
   \<and> upload_outcome (Resolved ok (Inl msg)) = Inl msg
   \<and> (d_detail data = Some msg \<and> msg \<noteq> [] \<longrightarrow>
        upload_outcome (Resolved False (Inr data)) = Inl msg)
   \<and> (d_detail data = None \<or> d_detail data = Some [] \<longrightarrow>
        upload_outcome (Resolved False (Inr data)) = Inl ''Error sending messages'')"
  by (auto simp add: handleSendMessages_resume_def or_else_def setToast_def addLog_def)

text \<open>HTTP 400 with detail "Invalid file format": the log entry has the detail, the
  toast has the fixed text.\<close>

theorem failed_upload_witness:
  "handleSendMessages_resume contacts_upload invalid_format_400 c300 c300 initialHome =
     initialHome\<lparr>logs := [\<lparr>log_id = ''300'', log_timestamp = ''10:00:02'',
                             log_message = ''Error: Invalid file format'', log_type = Error\<rparr>],
       toast := \<lparr>toast_message = ''Failed to start campaign'', toast_type = Some ToastError\<rparr>,
       toastRef := 1, isLoading := False\<rparr>"
proof -
  have detail:
    "d_detail \<lparr>d_message = None, d_detail = Some ''Invalid file format''\<rparr> = Some ''Invalid file format''
      \<and> ''Invalid file format'' \<noteq> []"
    by simp
  from failed_upload [of invalid_format_400 "''Invalid file format''" contacts_upload c300 c300
      initialHome False "\<lparr>d_message = None, d_detail = Some ''Invalid file format''\<rparr>"] detail
  have "handleSendMessages_resume contacts_upload invalid_format_400 c300 c300 initialHome =
        initialHome\<lparr>logs := newLog c300 (''Error: '' @ ''Invalid file format'') Error # logs initialHome,
          toast := \<lparr>toast_message = ''Failed to start campaign'', toast_type = Some ToastError\<rparr>,
          toastRef := Suc (toastRef initialHome), isLoading := False\<rparr>"
    unfolding invalid_format_400_def by blast
  then show ?thesis
    by (simp add: initialHome_def newLog_def c300_def toString_digit toString_more digit_char_def)
qed

text \<open>C4 as stated fails: after the HTTP 400 with detail "Invalid file format" the
  notification does not contain that text.\<close>

theorem failed_upload_toast_is_fixed:
  "\<not> sublist ''Invalid file format''
      (toast_message (toast
         (handleSendMessages_resume contacts_upload invalid_format_400 c300 c300 initialHome)))"
  by (simp add: handleSendMessages_resume_def invalid_format_400_def or_else_def setToast_def
      addLog_def sublist_code prefix_code)

subsection \<open>A poll tick\<close>

text \<open>
  C10. A tick that fails (the fetch rejects, the response is not \<open>ok\<close>, or its body
  does not parse) puts one error entry at the head of the log and changes nothing else:
  status snapshot, toast, interval table and poller cell are what they were. In the event
  loop the settled request leaves the in-flight list and the commit that follows runs no
  effect.
\<close>

theorem poll_failure_logs_only:
  "pollCallback_resume interval fileName (Rejected msg) c s =
     s\<lparr>logs := newLog c ''Error checking campaign status'' Error # logs s\<rparr>
   \<and> pollCallback_resume interval fileName (Resolved False body) c s =
     s\<lparr>logs := newLog c ''Error checking campaign status'' Error # logs s\<rparr>
   \<and> pollCallback_resume interval fileName (Resolved True (Inl msg)) c s =
     s\<lparr>logs := newLog c ''Error checking campaign status'' Error # logs s\<rparr>
   \<and> (k < length (statusInFlight s) \<longrightarrow>
        step (StatusSettles k (Rejected msg) c, now) s =
          s\<lparr>statusInFlight := remove_nth k (statusInFlight s),
            logs := newLog c ''Error checking campaign status'' Error # logs s\<rparr>
      \<and> step (StatusSettles k (Resolved False body) c, now) s =
          s\<lparr>statusInFlight := remove_nth k (statusInFlight s),
            logs := newLog c ''Error checking campaign status'' Error # logs s\<rparr>)"
  by (simp add: pollCallback_resume_def addLog_def step_def commit_def pollingEffect_def
      toastEffect_def)

text \<open>The first tick of the sample run fails in transport: one error entry, the
  interval still active.\<close>

theorem poll_failure_logs_only_witness:
  "step (StatusSettles 0 (Rejected ''Failed to fetch'') c5400, 5400) (run polling_run initialHome) =
     (run polling_run initialHome)
       \<lparr>statusInFlight := [],
        logs := newLog c5400 ''Error checking campaign status'' Error
                # logs (run polling_run initialHome)\<rparr>
   \<and> intervals (step (StatusSettles 0 (Rejected ''Failed to fetch'') c5400, 5400)
        (run polling_run initialHome)) = [(1, ''contacts.csv'', 5000)]"
proof -
  have k: "0 < length (statusInFlight (run polling_run initialHome))"
    by (simp add: polling_run_state)
  have rest: "remove_nth 0 (statusInFlight (run polling_run initialHome)) = []"
    by (simp add: polling_run_state remove_nth_def)
  have act: "intervals (run polling_run initialHome) = [(1, ''contacts.csv'', 5000)]"
    by (simp add: polling_run_state)
  from k poll_failure_logs_only [where s = "run polling_run initialHome" and k = 0
      and msg = "''Failed to fetch''" and c = c5400 and now = 5400]
  have "step (StatusSettles 0 (Rejected ''Failed to fetch'') c5400, 5400) (run polling_run initialHome) =
     (run polling_run initialHome)
       \<lparr>statusInFlight := remove_nth 0 (statusInFlight (run polling_run initialHome)),
        logs := newLog c5400 ''Error checking campaign status'' Error
                # logs (run polling_run initialHome)\<rparr>"
    by blast
  then show ?thesis
    by (simp add: rest act)
qed

text \<open>
  C3 at a count of zero. With \<open>{status: "processing", processed: 0, total: 20}\<close> both
  counts are present and the snapshot takes them, but no progress entry is logged:
  \<open>data.processed && data.total\<close> is false for \<open>0\<close>.
\<close>

theorem zero_progress_not_logged:
  "logs (pollCallback_resume interval fileName
      (Resolved True (Inr \<lparr>d_status = ''processing'', d_processed = Some 0, d_total = Some 20,
         d_successful = None, d_failed = None, d_success_rate = None\<rparr>)) c s) = logs s
   \<and> campaignStatus (pollCallback_resume interval fileName
      (Resolved True (Inr \<lparr>d_status = ''processing'', d_processed = Some 0, d_total = Some 20,
         d_successful = None, d_failed = None, d_success_rate = None\<rparr>)) c s) =
       Some \<lparr>cs_fileName = fileName, cs_status = ''processing'', cs_processed = Some 0,
         cs_total = Some 20, cs_successful = None, cs_failed = None, cs_successRate = None\<rparr>"
  by (simp add: pollCallback_resume_def truthy_def)

text \<open>With both counts positive and a status other than "completed", the snapshot is
  overwritten and the fraction is logged; 5 of 20 gives the entry of the scenario.\<close>

lemma progress_logged:
  "d_status data \<noteq> ''completed'' \<Longrightarrow> d_processed data = Some p \<Longrightarrow> d_total data = Some t \<Longrightarrow>
   0 < p \<Longrightarrow> 0 < t \<Longrightarrow>
   pollCallback_resume interval fileName (Resolved True (Inr data)) c s =
     s\<lparr>campaignStatus := Some
         \<lparr>cs_fileName = fileName, cs_status = d_status data, cs_processed = Some p,
          cs_total = Some t, cs_successful = d_successful data, cs_failed = d_failed data,
          cs_successRate = d_success_rate data\<rparr>,
       logs := newLog c (''Progress: '' @ toString p @ ''/'' @ toString t @
                         '' contacts processed'') Info # logs s\<rparr>"
  by (simp add: pollCallback_resume_def truthy_def addLog_def)

lemma progress_5_of_20:
  "pollCallback_resume interval fileName
      (Resolved True (Inr \<lparr>d_status = ''processing'', d_processed = Some 5, d_total = Some 20,
         d_successful = None, d_failed = None, d_success_rate = None\<rparr>)) c s =
     s\<lparr>campaignStatus := Some
         \<lparr>cs_fileName = fileName, cs_status = ''processing'', cs_processed = Some 5,
          cs_total = Some 20, cs_successful = None, cs_failed = None, cs_successRate = None\<rparr>,
       logs := newLog c ''Progress: 5/20 contacts processed'' Info # logs s\<rparr>"
  by (simp add: pollCallback_resume_def truthy_def addLog_def toString_digit toString_more
      digit_char_def)

subsection \<open>The log\<close>

lemma logs_addLogs:
  "logs (addLogs calls s) = rev (map (\<lambda>(c, msg, ty). newLog c msg ty) calls) @ logs s"
  unfolding addLogs_def
  by (induction calls arbitrary: s) (auto simp: addLog_def)

text \<open>
  C6. Each \<open>addLog\<close> puts its entry at the head and keeps the rest. After any
  sequence of calls the log is the entries of the calls, last call first, in front of
  what was there before: nothing is dropped, merged or altered. Started from the empty
  log, \<open>N\<close> calls leave exactly \<open>N\<close> entries. And whatever happens to the component,
  the log it had remains the tail of the log it has.
\<close>

theorem log_is_newest_first:
  "logs (addLog c msg ty s) = newLog c msg ty # logs s
   \<and> logs (addLogs calls s) = rev (map (\<lambda>(c, msg, ty). newLog c msg ty) calls) @ logs s
   \<and> length (logs (addLogs calls initialHome)) = length calls
   \<and> suffix (logs s) (logs (run es s))"
  by (simp add: logs_addLogs addLog_def initialHome_def logs_run)

lemma ids_of_addLogs:
  "map (\<lambda>l. id_value (log_id l)) (logs (addLogs calls initialHome)) =
     rev (map (\<lambda>(c, msg, ty). dateNow c) calls)"
  by (simp add: logs_addLogs initialHome_def rev_map newLog_def id_value_toString case_prod_unfold)

text \<open>
  What the ids do satisfy. An id is the clock's millisecond count at creation. Read as
  numbers, the ids of the log are the clock readings of the calls, newest first; so when
  the clock does not run backwards, an entry created later has an id greater than or
  equal to that of an entry created earlier (the log lists the later entry first).
\<close>

theorem ids_follow_the_clock:
  "map (\<lambda>l. id_value (log_id l)) (logs (addLogs calls initialHome)) =
     rev (map (\<lambda>(c, msg, ty). dateNow c) calls)
   \<and> (sorted (map (\<lambda>(c, msg, ty). dateNow c) calls) \<longrightarrow>
       (\<forall>i j. i < j \<and> j < length calls \<longrightarrow>
          id_value (log_id (logs (addLogs calls initialHome) ! j))
            \<le> id_value (log_id (logs (addLogs calls initialHome) ! i))))"
proof (intro conjI impI allI)
  show "map (\<lambda>l. id_value (log_id l)) (logs (addLogs calls initialHome)) =
     rev (map (\<lambda>(c, msg, ty). dateNow c) calls)"
    by (rule ids_of_addLogs)
next
  fix i j
  assume srt: "sorted (map (\<lambda>(c, msg, ty). dateNow c) calls)"
    and ij: "i < j \<and> j < length calls"
  let ?ids = "map (\<lambda>l. id_value (log_id l)) (logs (addLogs calls initialHome))"
  have len: "length (logs (addLogs calls initialHome)) = length calls"
    by (simp add: logs_addLogs initialHome_def)
  have "sorted (rev ?ids)"
    using srt by (simp add: ids_of_addLogs)
  then have "sorted_wrt (\<lambda>a b. b \<le> a) ?ids"
    by (simp add: sorted_wrt_rev)
  then have "?ids ! j \<le> ?ids ! i"
    using ij len by (simp add: sorted_wrt_iff_nth_less)
  then show "id_value (log_id (logs (addLogs calls initialHome) ! j))
            \<le> id_value (log_id (logs (addLogs calls initialHome) ! i))"
    using ij len by simp
qed

text \<open>Three calls at 100, 300 and 300 ms: the ids read 300, 300, 100 from the head.\<close>

theorem ids_follow_the_clock_witness:
  "id_value (log_id (logs (addLogs [(c100, ''a'', Info), (c300, ''b'', Info), (c300, ''c'', Success)]
                             initialHome) ! 2))
     \<le> id_value (log_id (logs (addLogs [(c100, ''a'', Info), (c300, ''b'', Info), (c300, ''c'', Success)]
                                 initialHome) ! 0))
   \<and> map (\<lambda>l. id_value (log_id l))
        (logs (addLogs [(c100, ''a'', Info), (c300, ''b'', Info), (c300, ''c'', Success)] initialHome))
      = [300, 300, 100]"
proof -
  let ?calls = "[(c100, ''a'', Info), (c300, ''b'', Info), (c300, ''c'', Success)]"
  have srt: "sorted (map (\<lambda>(c, msg, ty). dateNow c) ?calls)"
    by (simp add: c100_def c300_def)
  have idx: "(0::nat) < 2 \<and> 2 < length ?calls"
    by simp
  from ids_follow_the_clock [of ?calls] srt idx
  have "id_value (log_id (logs (addLogs ?calls initialHome) ! 2))
     \<le> id_value (log_id (logs (addLogs ?calls initialHome) ! 0))"
    by blast
  moreover from ids_follow_the_clock [of ?calls]
  have "map (\<lambda>l. id_value (log_id l)) (logs (addLogs ?calls initialHome)) = [300, 300, 100]"
    by (simp add: c100_def c300_def)
  ultimately show ?thesis
    by simp
qed

text \<open>
  C7 at a successful submission. \<open>handleSendMessages\<close> logs "Campaign started: ..."
  and \<open>startPollingStatus\<close> then logs "Checking campaign status..."; the two calls run
  back to back, and when both read the same millisecond the later entry (at the head)
  has the id of the earlier one, not a greater one. \<open>LogDisplay\<close> renders the entries
  with \<open>key={log.id}\<close>, which needs the ids distinct.
\<close>

theorem ids_repeat_within_a_millisecond:
  "\<not> id_value (log_id (logs (handleSendMessages_resume contacts_upload queued_200 c300 c300
                                initialHome) ! 1))
     < id_value (log_id (logs (handleSendMessages_resume contacts_upload queued_200 c300 c300
                                 initialHome) ! 0))"
  by (simp add: handleSendMessages_resume_def queued_200_def setToast_def addLog_def
      startPollingStatus_def clearExistingPolling_def contacts_upload_def newLog_def Let_def
      initialHome_def)

subsection \<open>The notification slot\<close>

lemma showToast_fields:
  assumes "toast_inv s" and "toast_type v \<noteq> None"
  shows "toast (showToast now v s) = v"
    and "timeouts (showToast now v s) = [(nextTimerId s, now + 3000)]"
    and "toastTimer (showToast now v s) = Some (nextTimerId s)"
    and "nextTimerId (showToast now v s) = Suc (nextTimerId s)"
    and "toastRef (showToast now v s) = Suc (toastRef s)"
    and "pollingInterval (showToast now v s) = pollingInterval s"
    and "toast_inv (showToast now v s)"
  using assms
  by (auto simp add: showToast_def commit_fields setToast_def toast_inv_def filter_single
      split: option.splits)

text \<open>
  C8. The toast cell is a single slot, and in every reachable state at most one
  clear-timer is pending. Show \<open>n1\<close> at time \<open>t1\<close> and then \<open>n2\<close> at time \<open>t2\<close>
  while the timer of \<open>n1\<close> has not fired: after the first, \<open>n1\<close> is in the slot with
  its timer due at \<open>t1 + 3000\<close>; after the second, \<open>n2\<close> is in the slot and the only
  pending timer is a new one, due at \<open>t2 + 3000\<close>. The timer of \<open>n1\<close> is cancelled:
  its firing changes nothing. When the timer of \<open>n2\<close> fires, the slot is emptied and
  no timer remains.
\<close>

theorem notification_single_slot:
  "length (timeouts (run es initialHome)) \<le> 1
   \<and> (toast_type n1 \<noteq> None \<and> toast_type n2 \<noteq> None \<longrightarrow>
       (let s = run es initialHome;
            s1 = showToast t1 n1 s;
            s2 = showToast t2 n2 s1;
            timer1 = nextTimerId s;
            timer2 = nextTimerId s1
        in toast s1 = n1 \<and> timeouts s1 = [(timer1, t1 + 3000)]
           \<and> toast s2 = n2 \<and> timeouts s2 = [(timer2, t2 + 3000)] \<and> timer2 \<noteq> timer1
           \<and> step (TimeoutFires timer1, t1 + 3000) s2 = s2
           \<and> toast (step (TimeoutFires timer2, t2 + 3000) s2) =
               \<lparr>toast_message = [], toast_type = None\<rparr>
           \<and> timeouts (step (TimeoutFires timer2, t2 + 3000) s2) = []))"
proof (intro conjI impI)
  let ?s = "run es initialHome"
  have "home_inv ?s"
    by (rule home_inv_reachable)
  then have inv: "toast_inv ?s"
    by (simp add: home_inv_def)
  then have "map fst (timeouts ?s) = [] \<or> (\<exists>t. map fst (timeouts ?s) = [t])"
    by (auto simp: toast_inv_def split: option.splits)
  then have "length (map fst (timeouts ?s)) \<le> 1"
    by auto
  then show "length (timeouts ?s) \<le> 1"
    by simp
  let ?s1 = "showToast t1 n1 ?s"
  let ?s2 = "showToast t2 n2 ?s1"
  let ?timer1 = "nextTimerId ?s"
  let ?timer2 = "nextTimerId ?s1"
  assume shown: "toast_type n1 \<noteq> None \<and> toast_type n2 \<noteq> None"
  then have n1: "toast_type n1 \<noteq> None" and n2: "toast_type n2 \<noteq> None"
    by simp_all
  note first = showToast_fields [OF inv n1, of t1]
  note second = showToast_fields [OF first(7) n2, of t2]
  have a: "toast ?s1 = n1" and b: "timeouts ?s1 = [(?timer1, t1 + 3000)]"
    by (rule first)+
  have c: "toast ?s2 = n2" and d: "timeouts ?s2 = [(?timer2, t2 + 3000)]"
    by (rule second)+
  have e: "?timer2 \<noteq> ?timer1"
    by (simp add: first)
  have f: "step (TimeoutFires ?timer1, t1 + 3000) ?s2 = ?s2"
    using e by (simp add: step_def d commit_def pollingEffect_def toastEffect_def)
  have g: "toast (step (TimeoutFires ?timer2, t2 + 3000) ?s2) =
             \<lparr>toast_message = [], toast_type = None\<rparr>"
    by (simp add: step_def d commit_fields toastTimeout_def setToast_def)
  have h: "timeouts (step (TimeoutFires ?timer2, t2 + 3000) ?s2) = []"
    by (simp add: step_def d commit_fields toastTimeout_def setToast_def second)
  from a b c d e f g h show
    "let s = run es initialHome;
         s1 = showToast t1 n1 s;
         s2 = showToast t2 n2 s1;
         timer1 = nextTimerId s;
         timer2 = nextTimerId s1
     in toast s1 = n1 \<and> timeouts s1 = [(timer1, t1 + 3000)]
        \<and> toast s2 = n2 \<and> timeouts s2 = [(timer2, t2 + 3000)] \<and> timer2 \<noteq> timer1
        \<and> step (TimeoutFires timer1, t1 + 3000) s2 = s2
        \<and> toast (step (TimeoutFires timer2, t2 + 3000) s2) =
            \<lparr>toast_message = [], toast_type = None\<rparr>
        \<and> timeouts (step (TimeoutFires timer2, t2 + 3000) s2) = []"
    unfolding Let_def by blast
qed

text \<open>An error toast at 100 ms and a success toast at 1100 ms: the slot clears at 4100 ms.\<close>

theorem notification_single_slot_witness:
  "toast (showToast 1100 success_toast (showToast 100 error_toast (run [] initialHome))) = success_toast
   \<and> timeouts (showToast 1100 success_toast (showToast 100 error_toast (run [] initialHome))) =
       [(2, 4100)]
   \<and> toast (step (TimeoutFires 2, 4100)
        (showToast 1100 success_toast (showToast 100 error_toast (run [] initialHome)))) =
       \<lparr>toast_message = [], toast_type = None\<rparr>
   \<and> timeouts (step (TimeoutFires 2, 4100)
        (showToast 1100 success_toast (showToast 100 error_toast (run [] initialHome)))) = []"
proof -
  have shown: "toast_type error_toast \<noteq> None \<and> toast_type success_toast \<noteq> None"
    by (simp add: error_toast_def success_toast_def)
  have s: "nextTimerId (run [] initialHome) = 1"
    by (simp add: run_def initialHome_def)
  have s1: "nextTimerId (showToast 100 error_toast (run [] initialHome)) = 2"
    by (simp add: run_def initialHome_def showToast_def commit_def pollingEffect_def
        toastEffect_def setToast_def error_toast_def)
  from shown notification_single_slot [of "[]" error_toast success_toast 100 1100]
  show ?thesis
    unfolding Let_def s s1 by simp
qed

subsection \<open>A completed campaign\<close>




subsection \<open>One poller at a time\<close>

text \<open>
  C2. In every state the component can reach at most one interval is active. When an
  upload in flight settles with success, \<open>startPollingStatus\<close> runs with the
  \<open>pollingInterval\<close> the submission saw at its click. Called on the interval table of
  that moment, its opening \<open>clearExistingPolling\<close> leaves no interval active, and
  \<open>startPollingStatus\<close> as a whole leaves exactly the interval it creates, whose id no
  earlier interval had. So when the handler returns, before React commits and any
  effect cleanup runs, the new interval is the only one active; after the commit it
  still is, and it is the one held in the \<open>pollingInterval\<close> cell.
\<close>

theorem single_active_poller:
  "length (intervals (run es initialHome)) \<le> 1
   \<and> (k < length (uploadsInFlight (run es initialHome)) \<and> upload_outcome r = Inr data \<longrightarrow>
       (let s = run es initialHome;
            u = uploadsInFlight s ! k;
            fileName = file_name (up_file u);
            s' = step (UploadSettles k r c1 c2, now) s
        in (\<forall>s0. intervals s0 = intervals s \<longrightarrow>
               intervals (clearExistingPolling (up_pollingInterval u) s0) = [])
           \<and> (\<forall>s0 c. intervals s0 = intervals s \<and> nextTimerId s0 = nextTimerId s \<longrightarrow>
                 intervals (startPollingStatus (up_pollingInterval u) c fileName s0) =
                   [(nextTimerId s, fileName, 5000)])
           \<and> intervals (handle (UploadSettles k r c1 c2) s) = [(nextTimerId s, fileName, 5000)]
           \<and> nextTimerId s \<notin> fst ` set (intervals s)
           \<and> intervals s' = [(nextTimerId s, fileName, 5000)]
           \<and> pollingInterval s' = Some (nextTimerId s)))"
proof (intro conjI impI)
  let ?s = "run es initialHome"
  have inv: "home_inv ?s"
    by (rule home_inv_reachable)
  then show "length (intervals ?s) \<le> 1"
    by (simp add: home_inv_def poller_inv_def)
  let ?u = "uploadsInFlight ?s ! k"
  let ?fn = "file_name (up_file ?u)"
  let ?s' = "step (UploadSettles k r c1 c2, now) ?s"
  assume hyp: "k < length (uploadsInFlight ?s) \<and> upload_outcome r = Inr data"
  from inv have reg: "list_all (\<lambda>e. pollingInterval ?s = Some (fst e)) (intervals ?s)"
    and old: "case pollingInterval ?s of None \<Rightarrow> True | Some t \<Rightarrow> t < nextTimerId ?s"
    by (simp_all add: home_inv_def poller_inv_def)
  from inv hyp have seen: "pollingInterval ?s = None \<or> up_pollingInterval ?u = pollingInterval ?s"
    by (simp add: home_inv_def upload_inv_def list_all_length)
  have cleared: "(case up_pollingInterval ?u of None \<Rightarrow> intervals ?s
      | Some t \<Rightarrow> filter (\<lambda>e. fst e \<noteq> t) (intervals ?s)) = []"
  proof (cases "pollingInterval ?s")
    case None
    with reg have "intervals ?s = []"
      by (simp add: list_all_False)
    then show ?thesis
      by (simp split: option.splits)
  next
    case (Some t)
    with seen have "up_pollingInterval ?u = Some t"
      by simp
    with reg Some show ?thesis
      by (simp add: filter_registered)
  qed
  have first: "\<forall>s0. intervals s0 = intervals ?s \<longrightarrow>
      intervals (clearExistingPolling (up_pollingInterval ?u) s0) = []"
    using cleared
    by (simp add: clearExistingPolling_def clearInterval_def split: option.splits)
  have whole: "\<forall>s0 c. intervals s0 = intervals ?s \<and> nextTimerId s0 = nextTimerId ?s \<longrightarrow>
      intervals (startPollingStatus (up_pollingInterval ?u) c ?fn s0) =
        [(nextTimerId ?s, ?fn, 5000)]"
    using cleared
    by (simp add: startPollingStatus_def clearExistingPolling_def clearInterval_def addLog_def
        Let_def split: option.splits)
  have fresh: "nextTimerId ?s \<notin> fst ` set (intervals ?s)"
    using reg old by (cases "pollingInterval ?s") (auto simp: list_all_iff)
  let ?h = "handleSendMessages_resume ?u r c1 c2
              (?s\<lparr>uploadsInFlight := remove_nth k (uploadsInFlight ?s)\<rparr>)"
  from hyp have out: "upload_outcome r = Inr data"
    by simp
  from hyp have handled: "handle (UploadSettles k r c1 c2) ?s = ?h"
    by simp
  from hyp have turn: "?s' = commit now ?s ?h"
    by (simp add: step_def)
  from cleared have started: "intervals ?h = [(nextTimerId ?s, ?fn, 5000)]"
    by (simp add: resume_success [OF out] cong: option.case_cong)
  have before_commit: "intervals (handle (UploadSettles k r c1 c2) ?s) = [(nextTimerId ?s, ?fn, 5000)]"
    unfolding handled by (rule started)
  have cell': "pollingInterval ?h = Some (nextTimerId ?s)"
    by (simp add: resume_success [OF out])
  have new: "intervals ?s' = [(nextTimerId ?s, ?fn, 5000)]"
    using old by (cases "pollingInterval ?s") (simp_all add: turn commit_fields started cell')
  have cell: "pollingInterval ?s' = Some (nextTimerId ?s)"
    by (simp add: turn commit_fields cell')
  from first whole before_commit fresh new cell show
    "let s = run es initialHome;
         u = uploadsInFlight s ! k;
         fileName = file_name (up_file u);
         s' = step (UploadSettles k r c1 c2, now) s
     in (\<forall>s0. intervals s0 = intervals s \<longrightarrow>
            intervals (clearExistingPolling (up_pollingInterval u) s0) = [])
        \<and> (\<forall>s0 c. intervals s0 = intervals s \<and> nextTimerId s0 = nextTimerId s \<longrightarrow>
              intervals (startPollingStatus (up_pollingInterval u) c fileName s0) =
                [(nextTimerId s, fileName, 5000)])
        \<and> intervals (handle (UploadSettles k r c1 c2) s) = [(nextTimerId s, fileName, 5000)]
        \<and> nextTimerId s \<notin> fst ` set (intervals s)
        \<and> intervals s' = [(nextTimerId s, fileName, 5000)]
        \<and> pollingInterval s' = Some (nextTimerId s)"
    unfolding Let_def by blast
qed

text \<open>A second submission while the poller of the first (interval 1) runs: the
  submission saw interval 1; \<open>clearExistingPolling\<close> empties the table,
  \<open>startPollingStatus\<close> leaves interval 3 alone, and so do the handler and the turn.\<close>

theorem single_active_poller_witness:
  "intervals (run resubmit_run initialHome) = [(1, ''contacts.csv'', 5000)]
   \<and> up_pollingInterval (uploadsInFlight (run resubmit_run initialHome) ! 0) = Some 1
   \<and> intervals (clearExistingPolling (Some 1) (run resubmit_run initialHome)) = []
   \<and> intervals (startPollingStatus (Some 1) c5400 ''contacts.csv'' (run resubmit_run initialHome)) =
       [(3, ''contacts.csv'', 5000)]
   \<and> intervals (handle (UploadSettles 0 queued_200 c5400 c5400) (run resubmit_run initialHome)) =
       [(3, ''contacts.csv'', 5000)]
   \<and> intervals (step (UploadSettles 0 queued_200 c5400 c5400, 5500) (run resubmit_run initialHome)) =
       [(3, ''contacts.csv'', 5000)]
   \<and> pollingInterval (step (UploadSettles 0 queued_200 c5400 c5400, 5500)
        (run resubmit_run initialHome)) = Some 3"
proof -
  let ?s = "run resubmit_run initialHome"
  have hyp: "0 < length (uploadsInFlight ?s)
     \<and> upload_outcome queued_200 = Inr \<lparr>d_message = Some ''queued'', d_detail = None\<rparr>"
    by (simp add: resubmit_run_state queued_200_def)
  have u: "up_pollingInterval (uploadsInFlight ?s ! 0) = Some 1"
    and fn: "file_name (up_file (uploadsInFlight ?s ! 0)) = ''contacts.csv''"
    and nxt: "nextTimerId ?s = 3"
    and act: "intervals ?s = [(1, ''contacts.csv'', 5000)]"
    by (simp_all add: resubmit_run_state contacts_csv_def)
  from hyp single_active_poller [of resubmit_run 0 queued_200
      "\<lparr>d_message = Some ''queued'', d_detail = None\<rparr>" c5400 c5400 5500]
  have first: "\<forall>s0. intervals s0 = intervals ?s \<longrightarrow>
        intervals (clearExistingPolling (Some 1) s0) = []"
    and whole: "\<forall>s0 c. intervals s0 = intervals ?s \<and> nextTimerId s0 = nextTimerId ?s \<longrightarrow>
        intervals (startPollingStatus (Some 1) c ''contacts.csv'' s0) = [(3, ''contacts.csv'', 5000)]"
    and rest: "intervals (handle (UploadSettles 0 queued_200 c5400 c5400) ?s) =
         [(3, ''contacts.csv'', 5000)]
       \<and> intervals (step (UploadSettles 0 queued_200 c5400 c5400, 5500) ?s) =
         [(3, ''contacts.csv'', 5000)]
       \<and> pollingInterval (step (UploadSettles 0 queued_200 c5400 c5400, 5500) ?s) = Some 3"
    unfolding Let_def u fn nxt by blast+
  from first have a: "intervals (clearExistingPolling (Some 1) ?s) = []"
    by blast
  from whole have b: "intervals (startPollingStatus (Some 1) c5400 ''contacts.csv'' ?s) =
       [(3, ''contacts.csv'', 5000)]"
    by blast
  from act u a b rest show ?thesis
    by blast
qed

end
